theory Spec2Isabelle
  imports Complex_Main "HOL-Library.Char_ord" "HOL-Library.List_Lexorder"
begin

section \<open>Errors raised by the pipeline\<close>

text \<open>
  Every Python exception the modelled code can raise is a constructor here; a function
  that may raise returns \<open>error + 'a\<close> with \<open>Inl\<close> for the exception.
\<close>

datatype error =
    ValueError
  | KeyError
  | IndexError
  | AssertionError
  | UnboundLocalError
  | StopIteration
  | DataJointError
  | DuplicateError
  | PermissionError

section \<open>Interval resolution (\<open>SpikeSorting.get_filtered_recording_extractor\<close>)\<close>

text \<open>
  \<open>numpy.searchsorted(a, v)\<close> with the default \<open>side='left'\<close>: on an ascending array
  the index of the first entry that is not below \<open>v\<close>.
\<close>

definition searchsorted :: "'t::linorder list \<Rightarrow> 't \<Rightarrow> nat" where
  "searchsorted a v = length (takeWhile (\<lambda>t. t < v) a)"

text \<open>
  Lines 806-812: the two ends of the sort interval are looked up in the timestamp array
  and the assertion \<open>sort_indices[1] - sort_indices[0] > 1000\<close> is checked. The
  difference is taken on numpy's signed integers.
\<close>

definition sort_indices :: "'t::linorder list \<Rightarrow> 't \<times> 't \<Rightarrow> error + (nat \<times> nat)" where
  "sort_indices timestamps sort_interval =
     (let i0 = searchsorted timestamps (fst sort_interval);
          i1 = searchsorted timestamps (snd sort_interval)
      in if int i1 - int i0 > 1000 then Inr (i0, i1) else Inl AssertionError)"

text \<open>The number of samples whose timestamp lies in the half-open sort interval.\<close>

definition samples_inside :: "'t::linorder list \<Rightarrow> 't \<times> 't \<Rightarrow> nat" where
  "samples_inside timestamps sort_interval =
     length (filter (\<lambda>t. fst sort_interval \<le> t \<and> t < snd sort_interval) timestamps)"

section \<open>Artifact store cleanup (\<open>SpikeSorting.nightly_cleanup\<close>)\<close>

text \<open>
  The file system maps a directory path to the names of its immediate subdirectories
  (\<open>next(os.walk(path))[1]\<close>); \<open>None\<close> is a path that is no directory, where
  \<open>os.walk\<close> yields nothing and \<open>next\<close> raises \<open>StopIteration\<close>.
\<close>

type_synonym filesystem = "string \<Rightarrow> string list option"

text \<open>\<open>shutil.rmtree(root / dir)\<close>: the subdirectory and all below it are gone.\<close>

definition rmtree :: "string \<Rightarrow> string \<Rightarrow> filesystem \<Rightarrow> filesystem" where
  "rmtree storage_root dir fs =
     (case fs storage_root of None \<Rightarrow> fs | Some ds \<Rightarrow> fs(storage_root \<mapsto> removeAll dir ds))"

text \<open>The loop of lines 992-996 over the listed directory names.\<close>

fun cleanup_dirs :: "string \<Rightarrow> string list \<Rightarrow> string list \<Rightarrow> filesystem \<Rightarrow> filesystem" where
  "cleanup_dirs storage_root analysis_file_names [] fs = fs"
| "cleanup_dirs storage_root analysis_file_names (dir # dir_names) fs =
     (if dir \<notin> set analysis_file_names
      then cleanup_dirs storage_root analysis_file_names dir_names (rmtree storage_root dir fs)
      else cleanup_dirs storage_root analysis_file_names dir_names fs)"

text \<open>
  \<open>nightly_cleanup\<close>: \<open>storage_dir\<close> is the environment variable
  \<open>SPIKE_SORTING_STORAGE_DIR\<close> (\<open>None\<close> when unset, a \<open>KeyError\<close>), and
  \<open>analysis_file_names\<close> is the column fetched from the table.
\<close>

definition nightly_cleanup ::
  "string option \<Rightarrow> string list \<Rightarrow> filesystem \<Rightarrow> error + filesystem" where
  "nightly_cleanup storage_dir analysis_file_names fs =
     (case storage_dir of
        None \<Rightarrow> Inl KeyError
      | Some storage_root \<Rightarrow>
          (case fs storage_root of
             None \<Rightarrow> Inl StopIteration
           | Some dir_names \<Rightarrow> Inr (cleanup_dirs storage_root analysis_file_names dir_names fs)))"

section \<open>Permission-gated delete (\<open>SpikeSorting.delete\<close>, \<open>CuratedSpikeSorting.delete\<close>)\<close>

text \<open>
  The tables the check reads. A row of \<open>SpikeSortingParameters\<close> is its primary key
  and its \<open>team_name\<close>; \<open>LabTeam.LabTeamMember\<close> pairs a team with a lab member;
  \<open>LabMember.LabMemberInfo\<close> pairs a lab member with a DataJoint user name.
\<close>

record 'k lab_tables =
  SpikeSortingParameters :: "('k \<times> string) list"
  LabTeamMember :: "(string \<times> string) list"
  LabMemberInfo :: "(string \<times> string) list"

text \<open>\<open>fetch1\<close> returns the single row of a query and raises on any other count.\<close>

definition fetch1 :: "'a list \<Rightarrow> error + 'a" where
  "fetch1 rows = (case rows of [x] \<Rightarrow> Inr x | _ \<Rightarrow> Inl DataJointError)"

text \<open>
  An entry of the table being deleted from is the key of its upstream
  \<open>SpikeSortingParameters\<close> row together with its remaining columns. Line 732 (1196)
  restricts \<open>SpikeSortingParameters\<close> by the entry and reads \<open>team_name\<close>.
\<close>

definition team_name_of :: "'k lab_tables \<Rightarrow> 'k \<times> 'r \<Rightarrow> error + string" where
  "team_name_of db entry =
     fetch1 (map snd (filter (\<lambda>row. fst row = fst entry) (SpikeSortingParameters db)))"

definition lab_member_name_list :: "'k lab_tables \<Rightarrow> string \<Rightarrow> string list" where
  "lab_member_name_list db team_name =
     map snd (filter (\<lambda>row. fst row = team_name) (LabTeamMember db))"

text \<open>Lines 734-736: one \<open>fetch1\<close> of the user name per lab member, in order.\<close>

fun datajoint_user_names :: "'k lab_tables \<Rightarrow> string list \<Rightarrow> error + string list" where
  "datajoint_user_names db [] = Inr []"
| "datajoint_user_names db (lab_member_name # rest) =
     (case fetch1 (map snd (filter (\<lambda>row. fst row = lab_member_name) (LabMemberInfo db))) of
        Inl e \<Rightarrow> Inl e
      | Inr user \<Rightarrow>
          (case datajoint_user_names db rest of
             Inl e \<Rightarrow> Inl e
           | Inr users \<Rightarrow> Inr (user # users)))"

text \<open>The body of the loop over the entries: the value stored in \<open>permission_bool\<close>.\<close>

definition entry_permission :: "string \<Rightarrow> 'k lab_tables \<Rightarrow> 'k \<times> 'r \<Rightarrow> error + bool" where
  "entry_permission current_user_name db entry =
     (case team_name_of db entry of
        Inl e \<Rightarrow> Inl e
      | Inr team_name \<Rightarrow>
          (case datajoint_user_names db (lab_member_name_list db team_name) of
             Inl e \<Rightarrow> Inl e
           | Inr names \<Rightarrow> Inr (current_user_name \<in> set names)))"

fun permission_bool :: "string \<Rightarrow> 'k lab_tables \<Rightarrow> ('k \<times> 'r) list \<Rightarrow> error + bool list" where
  "permission_bool current_user_name db [] = Inr []"
| "permission_bool current_user_name db (entry # entries) =
     (case entry_permission current_user_name db entry of
        Inl e \<Rightarrow> Inl e
      | Inr b \<Rightarrow>
          (case permission_bool current_user_name db entries of
             Inl e \<Rightarrow> Inl e
           | Inr bs \<Rightarrow> Inr (b # bs)))"

text \<open>\<open>np.sum\<close> over the array of zeros and ones.\<close>

definition np_sum :: "bool list \<Rightarrow> nat" where
  "np_sum bs = sum_list (map (\<lambda>b. if b then 1 else 0) bs)"

text \<open>
  \<open>delete\<close>: \<open>self\<close> is the table under a restriction, \<open>self.fetch()\<close> its selected
  rows, and \<open>super().delete()\<close> removes exactly them. The result is the outcome and the
  table afterwards; the generic \<open>Exception\<close> of line 742 is \<open>PermissionError\<close> here.
\<close>

definition delete ::
  "string \<Rightarrow> 'k lab_tables \<Rightarrow> ('k \<times> 'r \<Rightarrow> bool) \<Rightarrow> ('k \<times> 'r) list
     \<Rightarrow> (error + unit) \<times> ('k \<times> 'r) list" where
  "delete current_user_name db restriction table =
     (let entries = filter restriction table
      in case permission_bool current_user_name db entries of
           Inl e \<Rightarrow> (Inl e, table)
         | Inr bs \<Rightarrow>
             if np_sum bs = length entries
             then (Inr (), filter (\<lambda>row. \<not> restriction row) table)
             else (Inl PermissionError, table))"



section \<open>Sort groups (\<open>SortGroup.set_group_by_shank\<close>, \<open>set_group_by_electrode_group\<close>)\<close>

text \<open>A row of the \<open>Electrode\<close> table, with the columns the grouping reads.\<close>

record electrode =
  nwb_file_name :: string
  electrode_group_name :: string
  electrode_id :: int
  probe_shank :: int
  bad_channel :: string
  original_reference_electrode :: int

text \<open>
  A \<open>SortGroup\<close> row is (\<open>nwb_file_name\<close>, \<open>sort_group_id\<close>,
  \<open>sort_reference_electrode_id\<close>); a \<open>SortGroupElectrode\<close> row is
  (\<open>nwb_file_name\<close>, \<open>sort_group_id\<close>, \<open>electrode_group_name\<close>, \<open>electrode_id\<close>).
\<close>

type_synonym sort_group_row = "string \<times> nat \<times> int"
type_synonym sort_group_electrode_row = "string \<times> nat \<times> string \<times> int"

record sort_group_tables =
  SortGroup :: "sort_group_row list"
  SortGroupElectrode :: "sort_group_electrode_row list"

text \<open>
  The variables the loops update: the tables, the counter \<open>sort_group\<close>, and the entry
  \<open>sg_key['sort_reference_electrode_id']\<close>, which is absent until first assigned.
\<close>

record grouping_state =
  tables :: sort_group_tables
  sort_group :: nat
  sg_key_reference :: "int option"

text \<open>\<open>np.unique\<close>: the distinct values in ascending order.\<close>

definition np_unique :: "'a::linorder list \<Rightarrow> 'a list" where
  "np_unique xs = sort (remdups xs)"

text \<open>\<open>insert1\<close> refuses a row whose primary key is already in the table.\<close>

definition insert1 :: "('row \<Rightarrow> 'key) \<Rightarrow> 'row \<Rightarrow> 'row list \<Rightarrow> error + 'row list" where
  "insert1 primary_key row table =
     (if primary_key row \<in> set (map primary_key table) then Inl DuplicateError
      else Inr (table @ [row]))"

text \<open>Lines 122-124 (157-159): one part row per electrode of the group.\<close>

fun insert_electrodes ::
  "string \<Rightarrow> nat \<Rightarrow> string \<Rightarrow> int list \<Rightarrow> sort_group_electrode_row list
     \<Rightarrow> error + sort_group_electrode_row list" where
  "insert_electrodes nwb sg e_group [] table = Inr table"
| "insert_electrodes nwb sg e_group (elect # shank_elect) table =
     (case insert1 id (nwb, sg, e_group, elect) table of
        Inl e \<Rightarrow> Inl e
      | Inr table' \<Rightarrow> insert_electrodes nwb sg e_group shank_elect table')"

text \<open>
  Lines 110-125 (146-160), for the electrodes \<open>members\<close> of one group. When the
  references agree the key takes the first one. Otherwise line 116 (152) builds a
  \<open>ValueError\<close> object and drops it: there is no \<open>raise\<close>, so the key keeps
  whatever reference it had, and \<open>insert1\<close> fills an absent one with the column default
  \<open>-1\<close>. \<open>np.max\<close> of an empty array is the only \<open>ValueError\<close> raised.
\<close>

definition add_sort_group ::
  "string \<Rightarrow> string \<Rightarrow> electrode list \<Rightarrow> grouping_state \<Rightarrow> error + grouping_state" where
  "add_sort_group nwb e_group members st =
     (case map original_reference_electrode members of
        [] \<Rightarrow> Inl ValueError
      | r # rs \<Rightarrow>
          (let reference = (if fold max rs r = fold min rs r then Some r
                            else sg_key_reference st)
           in case insert1 (\<lambda>row. (fst row, fst (snd row)))
                     (nwb, sort_group st, (case reference of None \<Rightarrow> - 1 | Some x \<Rightarrow> x))
                     (SortGroup (tables st)) of
                Inl e \<Rightarrow> Inl e
              | Inr sg_rows \<Rightarrow>
                  (case insert_electrodes nwb (sort_group st) e_group
                          (map electrode_id members) (SortGroupElectrode (tables st)) of
                     Inl e \<Rightarrow> Inl e
                   | Inr sge_rows \<Rightarrow>
                       Inr \<lparr>tables = \<lparr>SortGroup = sg_rows, SortGroupElectrode = sge_rows\<rparr>,
                            sort_group = Suc (sort_group st),
                            sg_key_reference = reference\<rparr>)))"

fun shank_loop ::
  "string \<Rightarrow> electrode list \<Rightarrow> string \<Rightarrow> int list \<Rightarrow> grouping_state
     \<Rightarrow> error + grouping_state" where
  "shank_loop nwb electrodes e_group [] st = Inr st"
| "shank_loop nwb electrodes e_group (shank # shank_list) st =
     (case add_sort_group nwb e_group
             (filter (\<lambda>e. electrode_group_name e = e_group \<and> probe_shank e = shank) electrodes)
             st of
        Inl e \<Rightarrow> Inl e
      | Inr st' \<Rightarrow> shank_loop nwb electrodes e_group shank_list st')"

fun e_group_loop_by_shank ::
  "string \<Rightarrow> electrode list \<Rightarrow> string list \<Rightarrow> grouping_state \<Rightarrow> error + grouping_state" where
  "e_group_loop_by_shank nwb electrodes [] st = Inr st"
| "e_group_loop_by_shank nwb electrodes (e_group # e_groups) st =
     (case shank_loop nwb electrodes e_group
             (np_unique (map probe_shank
                (filter (\<lambda>e. electrode_group_name e = e_group) electrodes)))
             st of
        Inl e \<Rightarrow> Inl e
      | Inr st' \<Rightarrow> e_group_loop_by_shank nwb electrodes e_groups st')"

fun e_group_loop ::
  "string \<Rightarrow> electrode list \<Rightarrow> string list \<Rightarrow> grouping_state \<Rightarrow> error + grouping_state" where
  "e_group_loop nwb electrodes [] st = Inr st"
| "e_group_loop nwb electrodes (e_group # e_groups) st =
     (case add_sort_group nwb e_group
             (filter (\<lambda>e. electrode_group_name e = e_group) electrodes) st of
        Inl e \<Rightarrow> Inl e
      | Inr st' \<Rightarrow> e_group_loop nwb electrodes e_groups st')"

text \<open>
  Lines 94-102 (135-143): the session's groups are deleted (the part rows go with them),
  the session's electrodes with \<open>bad_channel = 'False'\<close> are fetched, and the loop starts
  with counter 0 and no reference in the key.
\<close>

definition start_grouping :: "string \<Rightarrow> sort_group_tables \<Rightarrow> grouping_state" where
  "start_grouping nwb db =
     \<lparr>tables = \<lparr>SortGroup = filter (\<lambda>row. fst row \<noteq> nwb) (SortGroup db),
                 SortGroupElectrode = filter (\<lambda>row. fst row \<noteq> nwb) (SortGroupElectrode db)\<rparr>,
      sort_group = 0,
      sg_key_reference = None\<rparr>"

definition fetch_electrodes :: "string \<Rightarrow> electrode list \<Rightarrow> electrode list" where
  "fetch_electrodes nwb Electrode =
     filter (\<lambda>e. nwb_file_name e = nwb \<and> bad_channel e = ''False'') Electrode"

definition set_group_by_shank ::
  "string \<Rightarrow> electrode list \<Rightarrow> sort_group_tables \<Rightarrow> error + sort_group_tables" where
  "set_group_by_shank nwb Electrode db =
     (let electrodes = fetch_electrodes nwb Electrode;
          e_groups = np_unique (map electrode_group_name electrodes)
      in case e_group_loop_by_shank nwb electrodes e_groups (start_grouping nwb db) of
           Inl e \<Rightarrow> Inl e
         | Inr st \<Rightarrow> Inr (tables st))"

definition set_group_by_electrode_group ::
  "string \<Rightarrow> electrode list \<Rightarrow> sort_group_tables \<Rightarrow> error + sort_group_tables" where
  "set_group_by_electrode_group nwb Electrode db =
     (let electrodes = fetch_electrodes nwb Electrode;
          e_groups = np_unique (map electrode_group_name electrodes)
      in case e_group_loop nwb electrodes e_groups (start_grouping nwb db) of
           Inl e \<Rightarrow> Inl e
         | Inr st \<Rightarrow> Inr (tables st))"

section \<open>Artifact detection (\<open>SpikeSortingArtifactParameters.get_no_artifact_times\<close>)\<close>

text \<open>
  The recording as the function reads it: the array \<open>recording._timestamps\<close> and the
  value of \<open>recording.get_num_frames()\<close>.
\<close>

record recording =
  r_timestamps :: "real list"
  get_num_frames :: nat

text \<open>Indexing a Python sequence: a negative index counts from the end.\<close>

definition getitem :: "'a list \<Rightarrow> int \<Rightarrow> error + 'a" where
  "getitem xs i =
     (if 0 \<le> i \<and> i < int (length xs) then Inr (xs ! nat i)
      else if i < 0 \<and> - int (length xs) \<le> i then Inr (xs ! nat (int (length xs) + i))
      else Inl IndexError)"

text \<open>
  The result is the value returned or the exception raised, and the recording as the
  call leaves it. With both thresholds non-positive, line 465 reads
  \<open>_timestamps[0]\<close> and \<open>_timestamps[get_num_frames()]\<close>. Otherwise line 469 reads
  the local variable \<open>data\<close>, which is bound only on line 471: Python raises
  \<open>UnboundLocalError\<close> there, before any line that touches the timestamps runs.
  The parameters \<open>proportion_above_thresh\<close>, \<open>zero_window_len\<close> and \<open>skip\<close>
  are read on neither path, so the model does not take them.
\<close>

definition get_no_artifact_times ::
  "recording \<Rightarrow> real \<Rightarrow> real \<Rightarrow> (error + (real \<times> real) list) \<times> recording" where
  "get_no_artifact_times recording zscore_thresh amplitude_thresh =
     (if zscore_thresh \<le> 0 \<and> amplitude_thresh \<le> 0
      then (case getitem (r_timestamps recording) 0 of
              Inl e \<Rightarrow> (Inl e, recording)
            | Inr t_first \<Rightarrow>
                (case getitem (r_timestamps recording) (int (get_num_frames recording)) of
                   Inl e \<Rightarrow> (Inl e, recording)
                 | Inr t_last \<Rightarrow> (Inr [(t_first, t_last)], recording)))
      else (Inl UnboundLocalError, recording))"

section \<open>Manual curation (\<open>CuratedSpikeSorting.make\<close>, \<open>insert_manual_curation\<close>)\<close>

text \<open>
  What the transition reads from the curation workspace: its sorting and recording ids,
  the curation's \<open>labelsByUnit\<close> (a dictionary, in key order) and \<open>mergeGroups\<close>,
  and the unit ids of the curated sorting extractor.
\<close>

record 'u workspace =
  sorting_ids :: "string list"
  recording_ids :: "string list"
  labelsByUnit :: "('u \<times> string list) list"
  mergeGroups :: "'u list list"
  curated_unit_ids :: "'u list"

text \<open>The units, metrics and labels that \<open>add_units\<close> writes into a new analysis file.\<close>

record ('u, 'm) nwb_units =
  file_units :: "'u list"
  file_metrics :: "('u \<times> 'm) list"
  file_labels :: "string list"

text \<open>
  The persisted state: the analysis files on disk, the rows of \<open>AnalysisNwbfile\<close>,
  \<open>CuratedSpikeSorting\<close> and its part table \<open>Unit\<close>, and how often the Sorting
  Engine has been asked for quality metrics (\<open>compute_metrics\<close>).
\<close>

record ('k, 'u, 'm) curation_db =
  analysis_files :: "(string \<times> ('u, 'm) nwb_units) list"
  AnalysisNwbfile :: "string list"
  CuratedSpikeSorting :: "('k \<times> string) list"
  Unit :: "('k \<times> 'u) list"
  compute_metrics_calls :: nat

text \<open>Lines 1090-1094: the units whose label list contains \<open>'accept'\<close>.\<close>

definition accepted_units :: "('u \<times> string list) list \<Rightarrow> 'u list" where
  "accepted_units unit_labels =
     map fst (filter (\<lambda>entry. ''accept'' \<in> set (snd entry)) unit_labels)"

text \<open>\<open>list.remove(x)\<close> drops the first occurrence and raises when there is none.\<close>

fun list_remove :: "'a \<Rightarrow> 'a list \<Rightarrow> error + 'a list" where
  "list_remove x [] = Inl ValueError"
| "list_remove x (y # ys) =
     (if x = y then Inr ys
      else (case list_remove x ys of Inl e \<Rightarrow> Inl e | Inr zs \<Rightarrow> Inr (y # zs)))"

text \<open>Lines 1100-1101: \<open>for cell in m[1:]: accepted_units.remove(cell)\<close>.\<close>

fun remove_cells :: "'u list \<Rightarrow> 'u list \<Rightarrow> error + 'u list" where
  "remove_cells [] accepted = Inr accepted"
| "remove_cells (cell # cells) accepted =
     (case list_remove cell accepted of
        Inl e \<Rightarrow> Inl e
      | Inr accepted' \<Rightarrow> remove_cells cells accepted')"

text \<open>Lines 1099-1101 for one merge group \<open>m\<close>; \<open>m[1:]\<close> is \<open>drop 1 m\<close>.\<close>

definition collapse_merge_group :: "'u list \<Rightarrow> 'u list \<Rightarrow> error + 'u list" where
  "collapse_merge_group m accepted =
     (if set (drop 1 m) \<subseteq> set accepted then remove_cells (drop 1 m) accepted
      else Inr accepted)"

text \<open>Lines 1097-1101: the merge groups in order, each against the current list.\<close>

fun remove_non_primary :: "'u list list \<Rightarrow> 'u list \<Rightarrow> error + 'u list" where
  "remove_non_primary [] accepted = Inr accepted"
| "remove_non_primary (m # groups) accepted =
     (case collapse_merge_group m accepted of
        Inl e \<Rightarrow> Inl e
      | Inr accepted' \<Rightarrow> remove_non_primary groups accepted')"

text \<open>\<open>sep.join(parts)\<close>.\<close>

fun join :: "string \<Rightarrow> string list \<Rightarrow> string" where
  "join sep [] = []"
| "join sep [x] = x"
| "join sep (x # y # ys) = x @ sep @ join sep (y # ys)"

text \<open>Lines 1104-1107: the labels of each accepted unit, joined by commas.\<close>

fun labels_concat :: "('u \<times> string list) list \<Rightarrow> 'u list \<Rightarrow> error + string list" where
  "labels_concat unit_labels [] = Inr []"
| "labels_concat unit_labels (unitId # rest) =
     (case map_of unit_labels unitId of
        None \<Rightarrow> Inl KeyError
      | Some ls \<Rightarrow>
          (case labels_concat unit_labels rest of
             Inl e \<Rightarrow> Inl e
           | Inr cs \<Rightarrow> Inr (join '','' ls # cs)))"

text \<open>\<open>metrics.loc[accepted_units]\<close>: the rows of the listed units, in that order.\<close>

fun loc :: "('u \<times> 'm) list \<Rightarrow> 'u list \<Rightarrow> error + ('u \<times> 'm) list" where
  "loc df [] = Inr []"
| "loc df (u # us) =
     (case map_of df u of
        None \<Rightarrow> Inl KeyError
      | Some row \<Rightarrow>
          (case loc df us of Inl e \<Rightarrow> Inl e | Inr rows \<Rightarrow> Inr ((u, row) # rows)))"

text \<open>Lines 1176-1181: one \<open>Unit\<close> row per unit of the new file.\<close>

fun insert_units :: "'k \<Rightarrow> 'u list \<Rightarrow> ('k \<times> 'u) list \<Rightarrow> error + ('k \<times> 'u) list" where
  "insert_units key [] table = Inr table"
| "insert_units key (unit_num # rest) table =
     (case insert1 id (key, unit_num) table of
        Inl e \<Rightarrow> Inl e
      | Inr table' \<Rightarrow> insert_units key rest table')"

text \<open>
  Lines 1116-1183, reached with a non-empty accepted list. The Sorting Engine is asked
  for the metrics of the curated sorting (\<open>engine_metrics\<close> is the table it returns) and
  the table is cut down to the accepted units; \<open>orig_units.iloc[1]\<close> needs two rows of
  the original units table; then the new analysis file (named \<open>new_file_name\<close> by
  \<open>AnalysisNwbfile().create\<close>) is written and registered and the rows are inserted.
  On an exception the state is the one reached when it was raised.
\<close>

definition save_curated ::
  "'k \<Rightarrow> string \<Rightarrow> 'u workspace \<Rightarrow> 'u list \<Rightarrow> string list \<Rightarrow> ('u \<times> 'm) list \<Rightarrow> 'o list
     \<Rightarrow> ('k, 'u, 'm) curation_db \<Rightarrow> (error + unit) \<times> ('k, 'u, 'm) curation_db" where
  "save_curated key new_file_name ws accepted labels engine_metrics orig_units db =
     (case recording_ids ws of
        [] \<Rightarrow> (Inl IndexError, db)
      | recording_id # other_ids \<Rightarrow>
          (let db1 = db\<lparr>compute_metrics_calls := Suc (compute_metrics_calls db)\<rparr>
           in case loc engine_metrics accepted of
                Inl e \<Rightarrow> (Inl e, db1)
              | Inr metrics \<Rightarrow>
                  if length orig_units < 2 then (Inl IndexError, db1)
                  else
                    (let units = filter (\<lambda>u. u \<in> set accepted) (curated_unit_ids ws);
                         db2 = db1\<lparr>analysis_files := analysis_files db1 @
                                     [(new_file_name,
                                       \<lparr>file_units = units, file_metrics = metrics,
                                        file_labels = labels\<rparr>)],
                                   AnalysisNwbfile := AnalysisNwbfile db1 @ [new_file_name]\<rparr>
                     in case insert1 fst (key, new_file_name) (CuratedSpikeSorting db2) of
                          Inl e \<Rightarrow> (Inl e, db2)
                        | Inr rows \<Rightarrow>
                            (case insert_units key units (Unit db2) of
                               Inl e \<Rightarrow> (Inl e, db2\<lparr>CuratedSpikeSorting := rows\<rparr>)
                             | Inr unit_rows \<Rightarrow>
                                 (Inr (), db2\<lparr>CuratedSpikeSorting := rows,
                                              Unit := unit_rows\<rparr>)))))"

text \<open>
  \<open>CuratedSpikeSorting.make\<close> of \<open>common_spikesorting.py\<close>: the two early returns on
  the number of sortings (lines 1075-1080), the accepted units and the merge groups
  (1090-1101), the labels (1104-1107), the early return of lines 1112-1114, and the rest.
\<close>

definition make ::
  "'k \<Rightarrow> string \<Rightarrow> 'u workspace \<Rightarrow> ('u \<times> 'm) list \<Rightarrow> 'o list
     \<Rightarrow> ('k, 'u, 'm) curation_db \<Rightarrow> (error + unit) \<times> ('k, 'u, 'm) curation_db" where
  "make key new_file_name ws engine_metrics orig_units db =
     (if length (sorting_ids ws) = 0 then (Inr (), db)
      else if length (sorting_ids ws) > 1 then (Inr (), db)
      else
        (case remove_non_primary (mergeGroups ws) (accepted_units (labelsByUnit ws)) of
           Inl e \<Rightarrow> (Inl e, db)
         | Inr accepted \<Rightarrow>
             (case labels_concat (labelsByUnit ws) accepted of
                Inl e \<Rightarrow> (Inl e, db)
              | Inr labels \<Rightarrow>
                  if length (labelsByUnit ws) = 0 \<or> length accepted = 0 then (Inr (), db)
                  else save_curated key new_file_name ws accepted labels engine_metrics
                         orig_units db)))"

text \<open>\<open>del d[k]\<close> on a dictionary: the entry goes, a missing key raises.\<close>

definition del_key :: "'a \<Rightarrow> ('a \<times> 'b) list \<Rightarrow> error + ('a \<times> 'b) list" where
  "del_key k d =
     (if k \<in> set (map fst d) then Inr (filter (\<lambda>entry. fst entry \<noteq> k) d) else Inl KeyError)"

text \<open>
  \<open>insert_manual_curation\<close> of \<open>spikesorting_curation.py\<close>, lines 309-311: every
  non-primary unit of a merge group is removed from \<open>unit_ids\<close> and from the labels.
\<close>

fun remove_merged_units ::
  "'u list \<Rightarrow> 'u list \<times> ('u \<times> string list) list
     \<Rightarrow> error + ('u list \<times> ('u \<times> string list) list)" where
  "remove_merged_units [] st = Inr st"
| "remove_merged_units (merged_unit # rest) (unit_ids, unit_labels) =
     (case list_remove merged_unit unit_ids of
        Inl e \<Rightarrow> Inl e
      | Inr unit_ids' \<Rightarrow>
          (case del_key merged_unit unit_labels of
             Inl e \<Rightarrow> Inl e
           | Inr unit_labels' \<Rightarrow> remove_merged_units rest (unit_ids', unit_labels')))"

fun remove_merge_groups ::
  "'u list list \<Rightarrow> 'u list \<times> ('u \<times> string list) list
     \<Rightarrow> error + ('u list \<times> ('u \<times> string list) list)" where
  "remove_merge_groups [] st = Inr st"
| "remove_merge_groups (m # groups) st =
     (case remove_merged_units (drop 1 m) st of
        Inl e \<Rightarrow> Inl e
      | Inr st' \<Rightarrow> remove_merge_groups groups st')"

text \<open>
  Lines 293-325. \<open>quality_metrics\<close> is the parent sorting's metrics as loaded from its
  file. The result is what is handed to \<open>insert_sorting\<close>: the labels and the metrics,
  \<open>None\<close> after a merge (line 313), which \<open>insert_sorting\<close> stores as the empty
  dictionary (lines 196-197). No line of either function calls the Sorting Engine.
\<close>

definition insert_manual_curation ::
  "'u workspace \<Rightarrow> 'q \<Rightarrow> error + (('u \<times> string list) list \<times> 'q option)" where
  "insert_manual_curation ws quality_metrics =
     (let unit_labels = labelsByUnit ws;
          unit_ids = map fst unit_labels;
          clusters_merged = (mergeGroups ws \<noteq> [])
      in if clusters_merged
         then (case remove_merge_groups (mergeGroups ws) (unit_ids, unit_labels) of
                 Inl e \<Rightarrow> Inl e
               | Inr st \<Rightarrow> Inr (snd st, None))
         else Inr (unit_labels, Some quality_metrics))"

section \<open>Properties of interval resolution\<close>

lemma takeWhile_less_sorted:
  "sorted a \<Longrightarrow> takeWhile (\<lambda>t. t < v) a = filter (\<lambda>t. t < v) (a :: 't::linorder list)"
proof (induction a)
  case Nil
  then show ?case by simp
next
  case (Cons x xs)
  show ?case
  proof (cases "x < v")
    case True
    with Cons show ?thesis by simp
  next
    case False
    with Cons.prems have "\<forall>y \<in> set xs. \<not> y < v" by auto
    then have "filter (\<lambda>t. t < v) xs = []" by (simp add: filter_empty_conv)
    with False show ?thesis by simp
  qed
qed

lemma searchsorted_count:
  "sorted a \<Longrightarrow> searchsorted a v = length (filter (\<lambda>t. t < v) (a :: 't::linorder list))"
  by (simp add: searchsorted_def takeWhile_less_sorted)

lemma count_below_split:
  "length (filter (\<lambda>t. t < e) (a :: 't::linorder list)) =
     length (filter (\<lambda>t. s \<le> t \<and> t < e) a) + length (filter (\<lambda>t. t < s \<and> t < e) a)"
  by (induction a) auto

lemma index_difference:
  assumes "sorted (a :: 't::linorder list)"
  shows "int (searchsorted a e) - int (searchsorted a s) \<le> int (samples_inside a (s, e))"
    and "s \<le> e \<Longrightarrow>
         int (searchsorted a e) - int (searchsorted a s) = int (samples_inside a (s, e))"
proof -
  have le: "length (filter (\<lambda>t. t < s \<and> t < e) a) \<le> length (filter (\<lambda>t. t < s) a)"
    by (induction a) auto
  show "int (searchsorted a e) - int (searchsorted a s) \<le> int (samples_inside a (s, e))"
    using assms le count_below_split [of e a s]
    by (simp add: searchsorted_count samples_inside_def)
  assume "s \<le> e"
  then have "filter (\<lambda>t. t < s \<and> t < e) a = filter (\<lambda>t. t < s) a"
    by (intro filter_cong) auto
  then show "int (searchsorted a e) - int (searchsorted a s) = int (samples_inside a (s, e))"
    using assms count_below_split [of e a s]
    by (simp add: searchsorted_count samples_inside_def)
qed

lemma samples_inside_empty:
  "\<not> s \<le> e \<Longrightarrow> samples_inside (a :: 't::linorder list) (s, e) = 0"
  by (auto simp: samples_inside_def filter_empty_conv)

text \<open>On the timestamps \<open>0, 1, ..., n - 1\<close> both quantities are read off directly.\<close>

lemma searchsorted_upt: "searchsorted [0..<n] v = min v n"
proof -
  have "length (filter (\<lambda>t. t < v) [0..<n]) = min v n"
    by (induction n) auto
  then show ?thesis by (simp add: searchsorted_count)
qed

lemma samples_inside_upt: "samples_inside [0..<n] (0, n) = n"
  by (simp add: samples_inside_def)

text \<open>
  C5 (as the code has it). Over an ascending timestamp array the lookup fails with the
  assertion error exactly when at most 1000 samples lie in the sort interval, and
  otherwise returns the two indices, whose distance is the number of samples inside:
  the floor is 1001 samples, not 1000.
\<close>

theorem sort_indices_floor:
  assumes "sorted (timestamps :: 't::linorder list)"
  shows "sort_indices timestamps (s, e) =
           (if samples_inside timestamps (s, e) \<le> 1000 then Inl AssertionError
            else Inr (searchsorted timestamps s, searchsorted timestamps e))
         \<and> (1000 < samples_inside timestamps (s, e) \<longrightarrow>
              searchsorted timestamps e - searchsorted timestamps s
                = samples_inside timestamps (s, e))"
proof (cases "s \<le> e")
  case True
  from index_difference(2) [OF assms True]
  show ?thesis by (auto simp: sort_indices_def Let_def)
next
  case False
  then have z: "samples_inside timestamps (s, e) = 0" by (rule samples_inside_empty)
  from index_difference(1) [OF assms, of e s] z
  show ?thesis by (auto simp: sort_indices_def Let_def)
qed

theorem sort_indices_floor_witness:
  "sorted ([0..<1001] :: nat list) \<and> samples_inside ([0..<1001] :: nat list) (0, 1001) = 1001
   \<and> sort_indices ([0..<1001] :: nat list) (0, 1001) = Inr (0, 1001)"
proof -
  have s: "sorted ([0..<1001] :: nat list)" by simp
  show ?thesis using sort_indices_floor [OF s, of 0 1001] s
    by (simp add: samples_inside_upt searchsorted_upt)
qed

text \<open>
  An interval holding exactly 1000 samples (timestamps \<open>0..999\<close>, interval from 0 to
  1000) is rejected, against the claim that exactly 1000 samples succeed.
\<close>

theorem exactly_1000_samples_counterexample:
  "samples_inside ([0..<1000] :: nat list) (0, 1000) = 1000
   \<and> sort_indices ([0..<1000] :: nat list) (0, 1000) = Inl AssertionError"
  by (simp add: samples_inside_upt sort_indices_def searchsorted_upt)

section \<open>Properties of the permission-gated delete\<close>










text \<open>
  C9. On an empty selection the loop stores no permission, the sum (zero) equals the
  number of entries (zero), and the delete goes through, whatever the team tables hold.
\<close>

theorem delete_empty_selection:
  assumes "filter restriction table = []"
  shows "permission_bool user db (filter restriction table) = Inr []
         \<and> np_sum [] = length (filter restriction table)
         \<and> delete user db restriction table = (Inr (), table)"
proof -
  from assms have "filter (\<lambda>row. \<not> restriction row) table = table"
    by (auto simp: filter_empty_conv filter_id_conv)
  with assms show ?thesis by (simp add: delete_def np_sum_def)
qed

theorem delete_empty_selection_witness:
  "filter (\<lambda>row. fst row = 9) [(1::nat, ''f1''), (2, ''f2'')] = []
   \<and> delete ''eve'' \<lparr>SpikeSortingParameters = [], LabTeamMember = [], LabMemberInfo = []\<rparr>
        (\<lambda>row. fst row = 9) [(1::nat, ''f1''), (2, ''f2'')]
       = (Inr (), [(1, ''f1''), (2, ''f2'')])"
proof -
  have h: "filter (\<lambda>row. fst row = 9) [(1::nat, ''f1''), (2, ''f2'')] = []" by simp
  from delete_empty_selection [OF h, of "''eve''"
      "\<lparr>SpikeSortingParameters = [], LabTeamMember = [], LabMemberInfo = []\<rparr>"] h
  show ?thesis by simp
qed

section \<open>Properties of the artifact store cleanup\<close>

lemma rmtree_at:
  "fs storage_root = Some ds \<Longrightarrow>
     rmtree storage_root dir fs = fs(storage_root \<mapsto> filter (\<lambda>d. d \<noteq> dir) ds)"
  by (simp add: rmtree_def removeAll_filter_not_eq) (metis)

lemma cleanup_dirs_result:
  "fs storage_root = Some ds \<Longrightarrow>
     cleanup_dirs storage_root live dir_names fs =
       fs(storage_root \<mapsto> filter (\<lambda>d. d \<in> set live \<or> d \<notin> set dir_names) ds)"
proof (induction dir_names arbitrary: fs ds)
  case Nil
  then show ?case by (simp add: fun_upd_idem)
next
  case (Cons dir dir_names)
  show ?case
  proof (cases "dir \<in> set live")
    case True
    have "filter (\<lambda>d. d \<in> set live \<or> d \<notin> set dir_names) ds
          = filter (\<lambda>d. d \<in> set live \<or> d \<notin> set (dir # dir_names)) ds"
      using True by (intro filter_cong) auto
    with True Cons.IH [of fs ds] Cons.prems show ?thesis by simp
  next
    case False
    let ?fs = "rmtree storage_root dir fs"
    have fs': "?fs = fs(storage_root \<mapsto> filter (\<lambda>d. d \<noteq> dir) ds)"
      using Cons.prems rmtree_at [of fs storage_root ds dir] by simp
    then have at: "?fs storage_root = Some (filter (\<lambda>d. d \<noteq> dir) ds)" by simp
    have eq: "filter (\<lambda>d. d \<in> set live \<or> d \<notin> set dir_names) (filter (\<lambda>d. d \<noteq> dir) ds)
          = filter (\<lambda>d. d \<in> set live \<or> d \<notin> set (dir # dir_names)) ds"
      using False by (auto intro: filter_cong)
    have "cleanup_dirs storage_root live (dir # dir_names) fs
          = cleanup_dirs storage_root live dir_names ?fs"
      using False by simp
    also have "\<dots> = ?fs(storage_root \<mapsto>
        filter (\<lambda>d. d \<in> set live \<or> d \<notin> set dir_names) (filter (\<lambda>d. d \<noteq> dir) ds))"
      using Cons.IH [of ?fs "filter (\<lambda>d. d \<noteq> dir) ds"] at by blast
    also have "\<dots> = fs(storage_root \<mapsto>
        filter (\<lambda>d. d \<in> set live \<or> d \<notin> set (dir # dir_names)) ds)"
      unfolding fs' eq by (rule fun_upd_upd)
    finally show ?thesis .
  qed
qed

text \<open>
  C8. For a storage root that lists the subdirectories \<open>dir_names\<close>, the cleanup
  succeeds and leaves under the root exactly the listed subdirectories whose name is a
  live analysis file name, in their order; the removed ones are exactly those whose name
  is not live, and every other path is as before.
\<close>

theorem nightly_cleanup_removes_orphans:
  assumes "fs storage_root = Some dir_names"
  shows "nightly_cleanup (Some storage_root) live fs =
           Inr (fs(storage_root \<mapsto> filter (\<lambda>d. d \<in> set live) dir_names))
         \<and> set (filter (\<lambda>d. d \<in> set live) dir_names) = set dir_names \<inter> set live
         \<and> set dir_names - set (filter (\<lambda>d. d \<in> set live) dir_names) = set dir_names - set live"
proof -
  have "filter (\<lambda>d. d \<in> set live \<or> d \<notin> set dir_names) dir_names
        = filter (\<lambda>d. d \<in> set live) dir_names"
    by (intro filter_cong) auto
  with cleanup_dirs_result [of fs storage_root dir_names live dir_names] assms
  show ?thesis by (auto simp: nightly_cleanup_def)
qed

theorem nightly_cleanup_removes_orphans_witness:
  "(Map.empty(''/store'' \<mapsto> [''r1'', ''r2'', ''r3'', ''r4''])) ''/store''
      = Some [''r1'', ''r2'', ''r3'', ''r4'']
   \<and> nightly_cleanup (Some ''/store'') [''r1'', ''r3'']
        (Map.empty(''/store'' \<mapsto> [''r1'', ''r2'', ''r3'', ''r4'']))
      = Inr (Map.empty(''/store'' \<mapsto> [''r1'', ''r3'']))
   \<and> set [''r1'', ''r2'', ''r3'', ''r4''] - set [''r1'', ''r3''] = {''r2'', ''r4''}"
proof -
  have h: "(Map.empty(''/store'' \<mapsto> [''r1'', ''r2'', ''r3'', ''r4''])) ''/store''
      = Some [''r1'', ''r2'', ''r3'', ''r4'']" by simp
  from nightly_cleanup_removes_orphans
      [of "Map.empty(''/store'' \<mapsto> [''r1'', ''r2'', ''r3'', ''r4''])" "''/store''"
          "[''r1'', ''r2'', ''r3'', ''r4'']" "[''r1'', ''r3'']"] h
  show ?thesis by auto
qed

section \<open>Sort groups and artifact detection on concrete inputs\<close>

text \<open>
  C2 (what the code does). Two good electrodes of one electrode group and one shank
  declare the reference electrodes 1 and 2. Neither grouping function fails: each
  returns normally with a sort group persisted for the session, its reference left at
  the column default \<open>-1\<close>, and both electrodes as its members.
\<close>

theorem mismatched_references_are_grouped:
  "set_group_by_shank ''s.nwb''
     [\<lparr>nwb_file_name = ''s.nwb'', electrode_group_name = ''0'', electrode_id = 0,
       probe_shank = 0, bad_channel = ''False'', original_reference_electrode = 1\<rparr>,
      \<lparr>nwb_file_name = ''s.nwb'', electrode_group_name = ''0'', electrode_id = 1,
       probe_shank = 0, bad_channel = ''False'', original_reference_electrode = 2\<rparr>]
     \<lparr>SortGroup = [], SortGroupElectrode = []\<rparr>
   = Inr \<lparr>SortGroup = [(''s.nwb'', 0, - 1)],
          SortGroupElectrode = [(''s.nwb'', 0, ''0'', 0), (''s.nwb'', 0, ''0'', 1)]\<rparr>
   \<and> set_group_by_electrode_group ''s.nwb''
     [\<lparr>nwb_file_name = ''s.nwb'', electrode_group_name = ''0'', electrode_id = 0,
       probe_shank = 0, bad_channel = ''False'', original_reference_electrode = 1\<rparr>,
      \<lparr>nwb_file_name = ''s.nwb'', electrode_group_name = ''0'', electrode_id = 1,
       probe_shank = 0, bad_channel = ''False'', original_reference_electrode = 2\<rparr>]
     \<lparr>SortGroup = [], SortGroupElectrode = []\<rparr>
   = Inr \<lparr>SortGroup = [(''s.nwb'', 0, - 1)],
          SortGroupElectrode = [(''s.nwb'', 0, ''0'', 0), (''s.nwb'', 0, ''0'', 1)]\<rparr>"
  by (simp add: set_group_by_shank_def set_group_by_electrode_group_def fetch_electrodes_def
      np_unique_def start_grouping_def add_sort_group_def insert1_def)

text \<open>
  Whenever the timestamp array has one entry per frame, the disabled branch reads one
  entry past the end.
\<close>

lemma disabled_thresholds_index_error:
  assumes "zscore_thresh \<le> 0" and "amplitude_thresh \<le> 0"
    and "get_num_frames recording = length (r_timestamps recording)"
  shows "get_no_artifact_times recording zscore_thresh amplitude_thresh
           = (Inl IndexError, recording)"
  using assms by (simp add: get_no_artifact_times_def getitem_def)

text \<open>
  C7 (what the code does). With both thresholds at their default \<open>-1\<close> and a
  recording of three frames with timestamps 10, 11, 12, the call raises
  \<open>IndexError\<close> instead of returning the single range from 10 to 12.
\<close>

theorem disabled_detection_raises:
  "get_no_artifact_times \<lparr>r_timestamps = [10, 11, 12], get_num_frames = 3\<rparr> (- 1) (- 1)
     = (Inl IndexError, \<lparr>r_timestamps = [10, 11, 12], get_num_frames = 3\<rparr>)"
  by (simp add: get_no_artifact_times_def getitem_def)

text \<open>With either threshold positive the call raises and the recording is as before.\<close>

lemma enabled_threshold_unbound_local:
  assumes "0 < zscore_thresh \<or> 0 < amplitude_thresh"
  shows "get_no_artifact_times recording zscore_thresh amplitude_thresh
           = (Inl UnboundLocalError, recording)"
  using assms by (auto simp: get_no_artifact_times_def)

text \<open>
  C10 (what the code does). With the z-score threshold 5 enabled, the call raises
  \<open>UnboundLocalError\<close> and the recording still carries its timestamps 10, 11, 12:
  no entry has been overwritten.
\<close>

theorem enabled_detection_leaves_timestamps:
  "get_no_artifact_times \<lparr>r_timestamps = [10, 11, 12], get_num_frames = 3\<rparr> 5 (- 1)
     = (Inl UnboundLocalError, \<lparr>r_timestamps = [10, 11, 12], get_num_frames = 3\<rparr>)"
  by (simp add: get_no_artifact_times_def)

section \<open>Properties of manual curation\<close>

text \<open>Removing from a list, and the loop over the non-primary cells of a merge group.\<close>

lemma list_remove_eq:
  "list_remove x xs = (if x \<in> set xs then Inr (remove1 x xs) else Inl ValueError)"
  by (induction xs) auto

lemma remove1_distinct_filter: "distinct xs \<Longrightarrow> remove1 x xs = filter (\<lambda>u. u \<noteq> x) xs"
proof -
  assume "distinct xs"
  then have "remove1 x xs = filter (\<lambda>u. x \<noteq> u) xs"
    by (simp add: distinct_remove1_removeAll removeAll_filter_not_eq)
  also have "\<dots> = filter (\<lambda>u. u \<noteq> x) xs"
    by (intro filter_cong) auto
  finally show ?thesis .
qed

lemma remove_cells_distinct:
  "distinct accepted \<Longrightarrow> distinct cells \<Longrightarrow> set cells \<subseteq> set accepted \<Longrightarrow>
     remove_cells cells accepted = Inr (filter (\<lambda>u. u \<notin> set cells) accepted)"
proof (induction cells arbitrary: accepted)
  case Nil
  then show ?case by simp
next
  case (Cons c cs)
  let ?acc = "filter (\<lambda>u. u \<noteq> c) accepted"
  from Cons.prems have step: "list_remove c accepted = Inr ?acc"
    by (simp add: list_remove_eq remove1_distinct_filter)
  from Cons.prems have "distinct ?acc" "distinct cs" "set cs \<subseteq> set ?acc" by auto
  then have "remove_cells cs ?acc = Inr (filter (\<lambda>u. u \<notin> set cs) ?acc)"
    by (rule Cons.IH)
  moreover have "filter (\<lambda>u. u \<notin> set cs) ?acc = filter (\<lambda>u. u \<notin> set (c # cs)) accepted"
    by (auto intro: filter_cong)
  ultimately show ?case using step by simp
qed

lemma remove_cells_missing:
  "x \<in> set cells \<Longrightarrow> x \<notin> set accepted \<Longrightarrow> remove_cells cells accepted = Inl ValueError"
proof (induction cells arbitrary: accepted)
  case Nil
  then show ?case by simp
next
  case (Cons c cs)
  show ?case
  proof (cases "c \<in> set accepted")
    case False
    then show ?thesis by (simp add: list_remove_eq)
  next
    case True
    with Cons.prems have "x \<noteq> c" by auto
    with Cons.prems have "x \<in> set cs" "x \<notin> set (remove1 c accepted)"
      by (auto dest: notin_set_remove1)
    then have "remove_cells cs (remove1 c accepted) = Inl ValueError" by (rule Cons.IH)
    with True show ?thesis by (simp add: list_remove_eq)
  qed
qed

lemma remove_cells_repeated:
  "distinct accepted \<Longrightarrow> \<not> distinct cells \<Longrightarrow> remove_cells cells accepted = Inl ValueError"
proof (induction cells arbitrary: accepted)
  case Nil
  then show ?case by simp
next
  case (Cons c cs)
  show ?case
  proof (cases "c \<in> set accepted")
    case False
    then show ?thesis by (simp add: list_remove_eq)
  next
    case True
    have d: "distinct (remove1 c accepted)" using Cons.prems by simp
    have "remove_cells cs (remove1 c accepted) = Inl ValueError"
    proof (cases "c \<in> set cs")
      case True
      moreover have "c \<notin> set (remove1 c accepted)" using Cons.prems by simp
      ultimately show ?thesis by (rule remove_cells_missing)
    next
      case False
      with Cons.prems have "\<not> distinct cs" by simp
      with d show ?thesis by (rule Cons.IH)
    qed
    with True show ?thesis by (simp add: list_remove_eq)
  qed
qed

text \<open>The accepted list never repeats a unit: the labels are a dictionary.\<close>

lemma distinct_accepted_units:
  "distinct (map fst unit_labels) \<Longrightarrow> distinct (accepted_units unit_labels)"
  by (simp add: accepted_units_def distinct_map_filter)

lemma collapse_merge_group_distinct:
  assumes "collapse_merge_group m accepted = Inr accepted'" and "distinct accepted"
  shows "distinct accepted' \<and> set accepted' \<subseteq> set accepted"
proof (cases "set (drop 1 m) \<subseteq> set accepted \<and> \<not> distinct (drop 1 m)")
  case True
  with assms show ?thesis by (simp add: collapse_merge_group_def remove_cells_repeated)
next
  case False
  with assms show ?thesis
    by (auto simp: collapse_merge_group_def remove_cells_distinct split: if_splits)
qed



text \<open>
  C6. When the accept rule followed by the merge groups leaves no accepted unit,
  \<open>make\<close> returns normally and the persisted state is the one it started from: no
  file is created, no row is inserted and the Sorting Engine is not called.
\<close>

theorem make_empty_curation_exits:
  assumes "remove_non_primary (mergeGroups ws) (accepted_units (labelsByUnit ws)) = Inr []"
  shows "make key new_file_name ws engine_metrics orig_units db = (Inr (), db)"
  using assms by (simp add: make_def)

theorem make_empty_curation_exits_witness:
  "remove_non_primary [[3, 1]] (accepted_units [(1 :: nat, [''accept'']), (2, [''reject''])])
     = Inr []
   \<and> make (7 :: nat) ''new.nwb''
        \<lparr>sorting_ids = [''S1''], recording_ids = [''R1''],
         labelsByUnit = [(1 :: nat, [''accept'']), (2, [''reject''])],
         mergeGroups = [[3, 1]], curated_unit_ids = [1, 2]\<rparr>
        [(1, 5 :: nat), (2, 6)] [0 :: nat, 1]
        \<lparr>analysis_files = [], AnalysisNwbfile = [], CuratedSpikeSorting = [], Unit = [],
         compute_metrics_calls = 0\<rparr>
     = (Inr (),
        \<lparr>analysis_files = [], AnalysisNwbfile = [], CuratedSpikeSorting = [], Unit = [],
         compute_metrics_calls = 0\<rparr>)"
proof -
  have h: "remove_non_primary
      (mergeGroups \<lparr>sorting_ids = [''S1''], recording_ids = [''R1''],
         labelsByUnit = [(1 :: nat, [''accept'']), (2, [''reject''])],
         mergeGroups = [[3, 1]], curated_unit_ids = [1, 2]\<rparr>)
      (accepted_units (labelsByUnit \<lparr>sorting_ids = [''S1''], recording_ids = [''R1''],
         labelsByUnit = [(1 :: nat, [''accept'']), (2, [''reject''])],
         mergeGroups = [[3, 1]], curated_unit_ids = [1, 2]\<rparr>)) = Inr []"
    by (simp add: accepted_units_def collapse_merge_group_def)
  from make_empty_curation_exits [OF h, of 7 "''new.nwb''" "[(1, 5 :: nat), (2, 6)]" "[0 :: nat, 1]"
      "\<lparr>analysis_files = [], AnalysisNwbfile = [], CuratedSpikeSorting = [], Unit = [],
         compute_metrics_calls = 0\<rparr>"] h
  show ?thesis by simp
qed

text \<open>Facts about \<open>make\<close> past the early return.\<close>

lemma remove_cells_subset:
  "remove_cells cells accepted = Inr accepted' \<Longrightarrow> set accepted' \<subseteq> set accepted"
proof (induction cells arbitrary: accepted)
  case Nil
  then show ?case by simp
next
  case (Cons c cs)
  from Cons.prems have r: "remove_cells cs (remove1 c accepted) = Inr accepted'"
    by (simp add: list_remove_eq split: if_splits)
  have "set (remove1 c accepted) \<subseteq> set accepted" by (rule set_remove1_subset)
  with Cons.IH [OF r] show ?case by blast
qed

lemma remove_non_primary_subset:
  "remove_non_primary groups accepted = Inr accepted' \<Longrightarrow> set accepted' \<subseteq> set accepted"
proof (induction groups arbitrary: accepted)
  case Nil
  then show ?case by simp
next
  case (Cons m groups)
  from Cons.prems obtain mid where c: "collapse_merge_group m accepted = Inr mid"
    and r: "remove_non_primary groups mid = Inr accepted'"
    by (auto split: sum.splits)
  from c have "set mid \<subseteq> set accepted"
    by (auto simp: collapse_merge_group_def split: if_splits dest: remove_cells_subset)
  with Cons.IH [OF r] show ?case by blast
qed

lemma accepted_units_keys: "set (accepted_units unit_labels) \<subseteq> fst ` set unit_labels"
  by (auto simp: accepted_units_def)

lemma labels_concat_total:
  "set accepted \<subseteq> fst ` set unit_labels \<Longrightarrow> \<exists>labels. labels_concat unit_labels accepted = Inr labels"
proof (induction accepted)
  case Nil
  then show ?case by simp
next
  case (Cons u us)
  then obtain labels where "labels_concat unit_labels us = Inr labels" by auto
  moreover from Cons.prems have "u \<in> fst ` set unit_labels" by simp
  then obtain ls where "map_of unit_labels u = Some ls"
    by (metis domD dom_map_of_conv_image_fst)
  ultimately show ?case by simp
qed

lemma loc_rows: "loc df us = Inr rows \<Longrightarrow> map fst rows = us \<and> set rows \<subseteq> set df"
proof (induction us arbitrary: rows)
  case Nil
  then show ?case by simp
next
  case (Cons u us)
  then show ?case
    by (auto split: option.splits sum.splits dest: map_of_SomeD)
qed

lemma save_curated_calls_engine:
  "recording_ids ws \<noteq> [] \<Longrightarrow>
     compute_metrics_calls
       (snd (save_curated key new_file_name ws accepted labels engine_metrics orig_units db))
     = Suc (compute_metrics_calls db)"
  by (auto simp: save_curated_def Let_def split: list.splits sum.splits)

lemma save_curated_file:
  "fst (save_curated key new_file_name ws accepted labels engine_metrics orig_units db) = Inr () \<Longrightarrow>
     \<exists>metrics. loc engine_metrics accepted = Inr metrics \<and>
       analysis_files
         (snd (save_curated key new_file_name ws accepted labels engine_metrics orig_units db))
       = analysis_files db @
           [(new_file_name,
             \<lparr>file_units = filter (\<lambda>u. u \<in> set accepted) (curated_unit_ids ws),
              file_metrics = metrics, file_labels = labels\<rparr>)]"
  by (auto simp: save_curated_def Let_def split: list.splits sum.splits if_splits)

lemma make_reaches_save:
  assumes "length (sorting_ids ws) = 1"
    and "remove_non_primary (mergeGroups ws) (accepted_units (labelsByUnit ws)) = Inr accepted"
    and "accepted \<noteq> []"
  shows "\<exists>labels. labels_concat (labelsByUnit ws) accepted = Inr labels \<and>
           make key new_file_name ws engine_metrics orig_units db =
             save_curated key new_file_name ws accepted labels engine_metrics orig_units db"
proof -
  from assms(2) have sub: "set accepted \<subseteq> fst ` set (labelsByUnit ws)"
    using remove_non_primary_subset accepted_units_keys by fast
  then obtain labels where l: "labels_concat (labelsByUnit ws) accepted = Inr labels"
    using labels_concat_total by blast
  from sub assms(3) have "labelsByUnit ws \<noteq> []" by auto
  with assms l show ?thesis by (simp add: make_def)
qed

text \<open>
  C4 (as the code has it). A run of \<open>make\<close> with exactly one sorting, a non-empty
  accepted list and a recording calls the Sorting Engine for the metrics exactly once,
  with or without merge groups, and a run that completes writes the recomputed metrics
  cut down to the accepted units, in their order. \<open>insert_manual_curation\<close> hands on
  the parent metrics whole when the workspace has no merge group, and no metrics at all
  when it has one.
\<close>

theorem metrics_recomputation_policy:
  assumes "length (sorting_ids ws) = 1"
    and "remove_non_primary (mergeGroups ws) (accepted_units (labelsByUnit ws)) = Inr accepted"
    and "accepted \<noteq> []"
    and "recording_ids ws \<noteq> []"
  shows "compute_metrics_calls (snd (make key new_file_name ws engine_metrics orig_units db))
           = Suc (compute_metrics_calls db)
         \<and> (fst (make key new_file_name ws engine_metrics orig_units db) = Inr () \<longrightarrow>
              (\<exists>labels metrics.
                 loc engine_metrics accepted = Inr metrics \<and> map fst metrics = accepted \<and>
                 analysis_files (snd (make key new_file_name ws engine_metrics orig_units db))
                   = analysis_files db @
                       [(new_file_name,
                         \<lparr>file_units = filter (\<lambda>u. u \<in> set accepted) (curated_unit_ids ws),
                          file_metrics = metrics, file_labels = labels\<rparr>)]))
         \<and> (mergeGroups ws = [] \<longrightarrow>
              insert_manual_curation ws quality_metrics
                = Inr (labelsByUnit ws, Some quality_metrics))
         \<and> (mergeGroups ws \<noteq> [] \<longrightarrow>
              (\<forall>unit_labels m. insert_manual_curation ws quality_metrics = Inr (unit_labels, m)
                 \<longrightarrow> m = None))"
proof (intro conjI)
  from make_reaches_save [OF assms(1-3), of key new_file_name engine_metrics orig_units db]
  obtain labels where
    m: "make key new_file_name ws engine_metrics orig_units db =
          save_curated key new_file_name ws accepted labels engine_metrics orig_units db"
    by blast
  show "compute_metrics_calls (snd (make key new_file_name ws engine_metrics orig_units db))
           = Suc (compute_metrics_calls db)"
    unfolding m using assms(4) by (rule save_curated_calls_engine)
  show "fst (make key new_file_name ws engine_metrics orig_units db) = Inr () \<longrightarrow>
              (\<exists>labels metrics.
                 loc engine_metrics accepted = Inr metrics \<and> map fst metrics = accepted \<and>
                 analysis_files (snd (make key new_file_name ws engine_metrics orig_units db))
                   = analysis_files db @
                       [(new_file_name,
                         \<lparr>file_units = filter (\<lambda>u. u \<in> set accepted) (curated_unit_ids ws),
                          file_metrics = metrics, file_labels = labels\<rparr>)])"
    unfolding m using save_curated_file loc_rows by fast
  show "mergeGroups ws = [] \<longrightarrow>
              insert_manual_curation ws quality_metrics
                = Inr (labelsByUnit ws, Some quality_metrics)"
    by (simp add: insert_manual_curation_def)
  show "mergeGroups ws \<noteq> [] \<longrightarrow>
              (\<forall>unit_labels m. insert_manual_curation ws quality_metrics = Inr (unit_labels, m)
                 \<longrightarrow> m = None)"
    by (auto simp: insert_manual_curation_def Let_def split: sum.splits)
qed

theorem metrics_recomputation_policy_witness:
  "make (7 :: nat) ''new.nwb''
        \<lparr>sorting_ids = [''S1''], recording_ids = [''R1''],
         labelsByUnit = [(1 :: nat, [''accept'']), (2, [''reject''])],
         mergeGroups = [], curated_unit_ids = [1, 2]\<rparr>
        [(1, 50 :: nat), (2, 60)] [0 :: nat, 1]
        \<lparr>analysis_files = [], AnalysisNwbfile = [], CuratedSpikeSorting = [], Unit = [],
         compute_metrics_calls = 0\<rparr>
     = (Inr (),
        \<lparr>analysis_files = [(''new.nwb'',
            \<lparr>file_units = [1], file_metrics = [(1, 50)], file_labels = [''accept'']\<rparr>)],
         AnalysisNwbfile = [''new.nwb''], CuratedSpikeSorting = [(7, ''new.nwb'')],
         Unit = [(7, 1)], compute_metrics_calls = 1\<rparr>)
   \<and> insert_manual_curation
        \<lparr>sorting_ids = [''S1''], recording_ids = [''R1''],
         labelsByUnit = [(1 :: nat, [''accept'']), (2, [''reject''])],
         mergeGroups = [], curated_unit_ids = [1, 2]\<rparr>
        [(1 :: nat, 5 :: nat), (2, 6)]
     = Inr ([(1, [''accept'']), (2, [''reject''])], Some [(1, 5), (2, 6)])"
proof -
  let ?ws = "\<lparr>sorting_ids = [''S1''], recording_ids = [''R1''],
         labelsByUnit = [(1 :: nat, [''accept'']), (2, [''reject''])],
         mergeGroups = [], curated_unit_ids = [1, 2]\<rparr>"
  have h: "length (sorting_ids ?ws) = 1"
    "remove_non_primary (mergeGroups ?ws) (accepted_units (labelsByUnit ?ws)) = Inr [1]"
    "[1 :: nat] \<noteq> []" "recording_ids ?ws \<noteq> []"
    by (simp_all add: accepted_units_def)
  from metrics_recomputation_policy [OF h, of 7 "''new.nwb''" "[(1, 50 :: nat), (2, 60)]"
      "[0 :: nat, 1]"
      "\<lparr>analysis_files = [], AnalysisNwbfile = [], CuratedSpikeSorting = [], Unit = [],
         compute_metrics_calls = 0\<rparr>" "[(1 :: nat, 5 :: nat), (2, 6)]"]
  show ?thesis
    by (simp add: make_def save_curated_def accepted_units_def insert1_def
        insert_manual_curation_def)
qed

text \<open>
  With no merge group at all, \<open>make\<close> still calls the Sorting Engine (the count goes
  from 0 to 1), and \<open>insert_manual_curation\<close> keeps the parent metrics of unit 2,
  which is not accepted: neither reuses the parent metrics restricted to the accepted
  units without recomputation.
\<close>

theorem recomputed_without_merge_counterexample:
  "mergeGroups \<lparr>sorting_ids = [''S1''], recording_ids = [''R1''],
         labelsByUnit = [(1 :: nat, [''accept'']), (2, [''reject''])],
         mergeGroups = [], curated_unit_ids = [1, 2]\<rparr> = []
   \<and> compute_metrics_calls (snd (make (7 :: nat) ''new.nwb''
        \<lparr>sorting_ids = [''S1''], recording_ids = [''R1''],
         labelsByUnit = [(1 :: nat, [''accept'']), (2, [''reject''])],
         mergeGroups = [], curated_unit_ids = [1, 2]\<rparr>
        [(1, 50 :: nat), (2, 60)] [0 :: nat, 1]
        \<lparr>analysis_files = [], AnalysisNwbfile = [], CuratedSpikeSorting = [], Unit = [],
         compute_metrics_calls = 0\<rparr>)) = 1
   \<and> insert_manual_curation
        \<lparr>sorting_ids = [''S1''], recording_ids = [''R1''],
         labelsByUnit = [(1 :: nat, [''accept'']), (2, [''reject''])],
         mergeGroups = [], curated_unit_ids = [1, 2]\<rparr>
        [(1 :: nat, 5 :: nat), (2, 6)]
     = Inr ([(1, [''accept'']), (2, [''reject''])], Some [(1, 5), (2, 6)])"
  by (simp add: make_def save_curated_def accepted_units_def insert1_def
      insert_manual_curation_def)

end
